theory Spec2Isabelle
  imports Main "HOL-Library.Word"
begin

section \<open>Error codes and resizing policy\<close>

text \<open>
  The enumerators of \<open>Error\<close> that \<open>tensor_impl.cpp\<close> names: \<open>Error::Ok\<close>,
  \<open>Error::Internal\<close> and \<open>Error::NotSupported\<close>.
\<close>

datatype Error = Ok | Internal | NotSupported

datatype TensorShapeDynamism = STATIC | DYNAMIC_BOUND | DYNAMIC_UNBOUND

section \<open>The tensor descriptor\<close>

text \<open>
  The members of \<open>TensorImpl\<close>, in the order of the constructor's initialiser list
  (a member \<open>sizes_\<close> is written \<open>sizes_'\<close>, since a name cannot end with an
  underscore here).
  \<open>sizes_\<close>, \<open>dim_order_\<close> and \<open>strides_\<close> point to caller-owned buffers; a
  buffer is modelled by its contents, and the two pointers that the code compares with
  \<open>nullptr\<close> are optional (\<open>None\<close> is the null pointer). The three buffers are
  taken to be disjoint from each other and from the argument of a resize.

  An extent (\<open>SizesType\<close>, a signed 32-bit integer) is a \<open>32 word\<close>, read by
  \<open>sint\<close>. \<open>numel_\<close> holds the \<open>ssize_t\<close> that \<open>compute_numel\<close> returns, a
  \<open>64 word\<close> read by \<open>sint\<close> (\<open>ssize_t\<close> has 64 bits on the targets considered):
  signed overflow is undefined in C++, and the model gives it the two's-complement
  wrap-around of the compiled code. \<open>numel_bound_\<close> is
  a 64-bit member as well, initialised from \<open>numel_\<close>; whether its declaration in
  \<open>tensor_impl.h\<close> makes it signed or unsigned is a parameter of the resize (see
  \<open>as_bound_type\<close>). The rank \<open>dim_\<close> (\<open>ssize_t\<close>) and the loop counters are
  integers, since nothing is computed from them. The strides are written by the layout
  converter only and are the integers of its description. Reading or writing a buffer
  beyond its end is undefined; the model describes descriptors whose buffers hold at
  least \<open>dim_\<close> entries.

  The element type and the data pointer are never inspected by the code modelled here,
  so their types are parameters.
\<close>

record ('ty, 'ptr) TensorImpl =
  sizes_' :: "32 word list"
  dim_order_' :: "nat list option"
  strides_' :: "int list option"
  data_' :: 'ptr
  dim_' :: int
  numel_' :: "64 word"
  numel_bound_' :: "64 word"
  type_' :: 'ty
  shape_dynamism_' :: TensorShapeDynamism

subsection \<open>\<open>compute_numel\<close>\<close>

text \<open>
  \<^verbatim>\<open>for (ssize_t i = 0; i < dim; ++i) { numel *= sizes[i]; }\<close>
  as a recursion on the loop counter, \<open>numel\<close> being the accumulator. The extent
  is converted to \<open>ssize_t\<close> (\<open>scast\<close>, sign extension) and the product is taken in
  64 bits.
\<close>

function compute_numel_loop :: "32 word list \<Rightarrow> int \<Rightarrow> int \<Rightarrow> 64 word \<Rightarrow> 64 word" where
  "compute_numel_loop sizes dim i numel =
     (if i < dim then compute_numel_loop sizes dim (i + 1) (numel * scast (sizes ! nat i))
      else numel)"
  by pat_completeness auto
termination
  by (relation "measure (\<lambda>(sizes, dim, i, numel). nat (dim - i))") auto

declare compute_numel_loop.simps [simp del]

definition compute_numel :: "32 word list \<Rightarrow> int \<Rightarrow> 64 word" where
  "compute_numel sizes dim = compute_numel_loop sizes dim 0 1"

subsection \<open>Construction\<close>

text \<open>
  \<open>ET_CHECK_MSG\<close> aborts the process when \<open>isValid(type_)\<close> is false: the constructor
  then yields no descriptor (\<open>None\<close>). \<open>isValid\<close> belongs to the scalar-type registry
  and is a parameter.
\<close>

definition TensorImpl_ctor ::
  "('ty \<Rightarrow> bool) \<Rightarrow> 'ty \<Rightarrow> int \<Rightarrow> 32 word list \<Rightarrow> 'ptr \<Rightarrow> nat list option \<Rightarrow> int list option
     \<Rightarrow> TensorShapeDynamism \<Rightarrow> ('ty, 'ptr) TensorImpl option" where
  "TensorImpl_ctor isValid type dim sizes data dim_order strides dynamism =
     (let numel = compute_numel sizes dim;
          this = \<lparr> sizes_' = sizes, dim_order_' = dim_order, strides_' = strides,
                   data_' = data, dim_' = dim, numel_' = numel, numel_bound_' = numel,
                   type_' = type, shape_dynamism_' = dynamism \<rparr>
      in if isValid type then Some this else None)"

subsection \<open>The layout converter\<close>

text \<open>
  \<open>dim_order_to_stride\<close> is called by the resize and defined in
  \<open>dim_order_util.h\<close>, outside the two files embedded here. It is modelled from the
  specification's description of the layout converter: a pure function from sizes, dim
  order and rank to strides that rejects a dim order that is not a permutation of
  \<open>0..rank-1\<close>.
\<close>

text \<open>
  Modelled from the spec: the check of \<open>dim_order_to_stride\<close> that the first \<open>dims\<close>
  entries of the dim order are a permutation of \<open>0..dims-1\<close> (pairwise distinct and
  each below \<open>dims\<close>).
\<close>

definition dim_order_is_permutation :: "nat list \<Rightarrow> nat \<Rightarrow> bool" where
  "dim_order_is_permutation dim_order dims \<longleftrightarrow>
     dims \<le> length dim_order \<and> distinct (take dims dim_order)
       \<and> list_all (\<lambda>k. k < dims) (take dims dim_order)"

text \<open>
  Modelled from the spec: the inverse of the dim order used by \<open>dim_order_to_stride\<close>,
  the physical position at which the logical axis \<open>k\<close> is stored.
\<close>

fun physical_position :: "nat list \<Rightarrow> nat \<Rightarrow> nat" where
  "physical_position [] k = 0"
| "physical_position (d # ds) k = (if d = k then 0 else Suc (physical_position ds k))"

text \<open>
  Modelled from the spec: the strides computed by \<open>dim_order_to_stride\<close>. The
  physically innermost axis, the last entry of the dim order, has stride one; the stride
  of any other axis is the product of the extents of all faster-varying axes, those at
  later physical positions; the strides are listed in logical axis order.
\<close>

definition layout_strides :: "int list \<Rightarrow> nat list \<Rightarrow> nat \<Rightarrow> int list" where
  "layout_strides sizes dim_order dims =
     map (\<lambda>k. prod_list (map (\<lambda>j. sizes ! (dim_order ! j))
                              [Suc (physical_position dim_order k) ..< dims]))
         [0 ..< dims]"

text \<open>
  Modelled from the spec: \<open>dim_order_to_stride(sizes, dim_order, dims, strides)\<close>.
  The result is the status together with the contents of the \<open>strides\<close> buffer after
  the call. An invalid dim order is rejected with the internal error and, the converter
  being a pure function of its inputs, nothing has been written then; on success the
  first \<open>dims\<close> entries of the buffer are overwritten.
\<close>

definition dim_order_to_stride ::
  "int list \<Rightarrow> nat list \<Rightarrow> nat \<Rightarrow> int list \<Rightarrow> Error \<times> int list" where
  "dim_order_to_stride sizes dim_order dims strides =
     (if \<not> dim_order_is_permutation dim_order dims then (Internal, strides)
      else (Ok, layout_strides sizes dim_order dims @ drop dims strides))"

subsection \<open>Resizing\<close>

text \<open>
  \<open>std::equal(first1, first1 + n, first2)\<close> compares \<open>n\<close> entries position by
  position; \<open>std::copy\<close> overwrites the front of the destination buffer.
\<close>

definition std_equal :: "32 word list \<Rightarrow> nat \<Rightarrow> 32 word list \<Rightarrow> bool" where
  "std_equal first1 n first2 \<longleftrightarrow> list_all (\<lambda>i. first1 ! i = first2 ! i) [0 ..< n]"

definition std_copy :: "32 word list \<Rightarrow> 32 word list \<Rightarrow> 32 word list" where
  "std_copy src dst = src @ drop (length src) dst"

text \<open>
  \<open>new_numel <= numel_bound_\<close> compares an \<open>ssize_t\<close> with the member
  \<open>numel_bound_\<close>, whose declaration is in \<open>tensor_impl.h\<close>. If the member is a
  \<open>size_t\<close>, both sides are compared as unsigned 64-bit values (\<open>uint\<close>); if it is an
  \<open>ssize_t\<close>, as signed ones (\<open>sint\<close>). The flag \<open>bound_unsigned\<close> selects the
  declaration, and \<open>as_bound_type\<close> is the value of a 64-bit quantity in the type of
  \<open>numel_bound_\<close>.
\<close>

definition as_bound_type :: "bool \<Rightarrow> 64 word \<Rightarrow> int" where
  "as_bound_type bound_unsigned w = (if bound_unsigned then uint w else sint w)"


text \<open>
  The body shared by the cases \<open>DYNAMIC_BOUND\<close> and \<open>DYNAMIC_UNBOUND\<close>. Each
  \<open>ET_CHECK_OR_RETURN_ERROR\<close> returns its error code when its condition is false;
  \<open>ET_CHECK_OK_OR_RETURN_ERROR\<close> returns the converter's status when that is not
  \<open>Ok\<close>. The converter receives the values of the new extents and the \<open>strides_\<close>
  buffer itself, so whatever it has written is in the descriptor also when it fails.
\<close>

definition resize_dynamic ::
  "bool \<Rightarrow> ('ty, 'ptr) TensorImpl \<Rightarrow> 32 word list \<Rightarrow> Error \<times> ('ty, 'ptr) TensorImpl" where
  "resize_dynamic bound_unsigned this new_sizes =
     (let new_numel = compute_numel new_sizes (dim_' this) in
      if \<not> as_bound_type bound_unsigned new_numel
             \<le> as_bound_type bound_unsigned (numel_bound_' this)
      then (NotSupported, this)
      else case strides_' this of
        None \<Rightarrow> (Internal, this)
      | Some strides \<Rightarrow>
         (case dim_order_' this of
            None \<Rightarrow> (Internal, this)
          | Some dim_order \<Rightarrow>
             (case dim_order_to_stride (map sint new_sizes) dim_order (nat (dim_' this))
                     strides of
                (status, strides') \<Rightarrow>
                  if status \<noteq> Ok then (status, this\<lparr>strides_' := Some strides'\<rparr>)
                  else (Ok, this\<lparr>strides_' := Some strides', numel_' := new_numel,
                                 sizes_' := std_copy new_sizes (sizes_' this)\<rparr>))))"

text \<open>
  \<open>TensorImpl::internal_resize_contiguous\<close>: the returned error code and the
  descriptor after the call. \<open>new_sizes.size() == dim_\<close> compares a \<open>size_t\<close>
  with an \<open>ssize_t\<close>; a negative \<open>dim_\<close> equals no length.
\<close>

definition internal_resize_contiguous ::
  "bool \<Rightarrow> ('ty, 'ptr) TensorImpl \<Rightarrow> 32 word list \<Rightarrow> Error \<times> ('ty, 'ptr) TensorImpl" where
  "internal_resize_contiguous bound_unsigned this new_sizes =
     (if \<not> int (length new_sizes) = dim_' this then (NotSupported, this)
      else if dim_' this = 0 then (Ok, this)
      else case shape_dynamism_' this of
        STATIC \<Rightarrow>
          if \<not> std_equal (sizes_' this) (nat (dim_' this)) new_sizes
          then (NotSupported, this) else (Ok, this)
      | DYNAMIC_BOUND \<Rightarrow> resize_dynamic bound_unsigned this new_sizes
      | DYNAMIC_UNBOUND \<Rightarrow> resize_dynamic bound_unsigned this new_sizes)"

section \<open>Delegate event-tracer hooks\<close>

text \<open>
  The class \<open>EventTracer\<close> and the struct \<open>EventTracerEntry\<close> are declared in
  \<open>event_tracer.h\<close>. The four virtual methods that the hooks call are parameters,
  collected in a record: a method receives a reference \<open>'p\<close> to the tracer it is
  called on and the program state \<open>'w\<close>, which holds the tracer and whatever else a
  method may touch, and returns the new state. An \<open>EventTracer*\<close> is an optional
  reference (\<open>None\<close> is the null pointer). The debug handle, the timestamps, the
  metadata pointer and the logged output (the template parameter \<open>T\<close>) have
  parameter types; a name is an optional string, since \<open>nullptr\<close> may be passed.
\<close>

record ('w, 'p, 'e, 'dh, 'ts, 'md, 'out) EventTracer =
  start_profiling_delegate :: "'p \<Rightarrow> string option \<Rightarrow> 'dh \<Rightarrow> 'w \<Rightarrow> 'e \<times> 'w"
  end_profiling_delegate :: "'p \<Rightarrow> 'e \<Rightarrow> 'md \<Rightarrow> nat \<Rightarrow> 'w \<Rightarrow> 'w"
  log_profiling_delegate ::
    "'p \<Rightarrow> string option \<Rightarrow> 'dh \<Rightarrow> 'ts \<Rightarrow> 'ts \<Rightarrow> 'md \<Rightarrow> nat \<Rightarrow> 'w \<Rightarrow> 'w"
  log_intermediate_output_delegate :: "'p \<Rightarrow> string option \<Rightarrow> 'dh \<Rightarrow> 'out \<Rightarrow> 'w \<Rightarrow> 'w"

text \<open>
  Each hook takes the compile-time flag \<open>ET_EVENT_TRACER_ENABLED\<close> as its first
  argument. \<open>EventTracerEntry\<close> stands for the default-constructed entry
  \<open>EventTracerEntry()\<close>.
\<close>

definition event_tracer_start_profiling_delegate ::
  "bool \<Rightarrow> ('w, 'p, 'e, 'dh, 'ts, 'md, 'out) EventTracer \<Rightarrow> 'e \<Rightarrow> 'p option
     \<Rightarrow> string option \<Rightarrow> 'dh \<Rightarrow> 'w \<Rightarrow> 'e \<times> 'w" where
  "event_tracer_start_profiling_delegate ET_EVENT_TRACER_ENABLED methods EventTracerEntry
       event_tracer name delegate_debug_id w =
     (if ET_EVENT_TRACER_ENABLED then
        (case event_tracer of
           Some p \<Rightarrow> start_profiling_delegate methods p name delegate_debug_id w
         | None \<Rightarrow> (EventTracerEntry, w))
      else (EventTracerEntry, w))"

definition event_tracer_end_profiling_delegate ::
  "bool \<Rightarrow> ('w, 'p, 'e, 'dh, 'ts, 'md, 'out) EventTracer \<Rightarrow> 'p option
     \<Rightarrow> 'e \<Rightarrow> 'md \<Rightarrow> nat \<Rightarrow> 'w \<Rightarrow> 'w" where
  "event_tracer_end_profiling_delegate ET_EVENT_TRACER_ENABLED methods
       event_tracer event_tracer_entry metadata metadata_len w =
     (if ET_EVENT_TRACER_ENABLED then
        (case event_tracer of
           Some p \<Rightarrow> end_profiling_delegate methods p event_tracer_entry metadata metadata_len w
         | None \<Rightarrow> w)
      else w)"

definition event_tracer_log_profiling_delegate ::
  "bool \<Rightarrow> ('w, 'p, 'e, 'dh, 'ts, 'md, 'out) EventTracer \<Rightarrow> 'p option
     \<Rightarrow> string option \<Rightarrow> 'dh \<Rightarrow> 'ts \<Rightarrow> 'ts \<Rightarrow> 'md \<Rightarrow> nat \<Rightarrow> 'w \<Rightarrow> 'w" where
  "event_tracer_log_profiling_delegate ET_EVENT_TRACER_ENABLED methods
       event_tracer name delegate_debug_id start_time end_time metadata metadata_len w =
     (if ET_EVENT_TRACER_ENABLED then
        (case event_tracer of
           Some p \<Rightarrow> log_profiling_delegate methods p name delegate_debug_id
                       start_time end_time metadata metadata_len w
         | None \<Rightarrow> w)
      else w)"

definition event_tracer_log_output_delegate ::
  "bool \<Rightarrow> ('w, 'p, 'e, 'dh, 'ts, 'md, 'out) EventTracer \<Rightarrow> 'p option
     \<Rightarrow> string option \<Rightarrow> 'dh \<Rightarrow> 'out \<Rightarrow> 'w \<Rightarrow> 'w" where
  "event_tracer_log_output_delegate ET_EVENT_TRACER_ENABLED methods
       event_tracer name delegate_debug_id output w =
     (if ET_EVENT_TRACER_ENABLED then
        (case event_tracer of
           Some p \<Rightarrow> log_intermediate_output_delegate methods p name delegate_debug_id output w
         | None \<Rightarrow> w)
      else w)"

section \<open>Example descriptors\<close>

text \<open>
  The descriptor of the specification's example: rank 2, row-major, sizes \<open>[3, 4]\<close>,
  capacity 12; the same descriptor with the static policy and with a dim order that is
  not a permutation; a scalar; and a descriptor of rank 4 and capacity 1.
\<close>

definition spec_example :: "(unit, unit) TensorImpl" where
  "spec_example =
     \<lparr> sizes_' = [3, 4], dim_order_' = Some [0, 1], strides_' = Some [4, 1],
       data_' = (), dim_' = 2, numel_' = 12, numel_bound_' = 12,
       type_' = (), shape_dynamism_' = DYNAMIC_BOUND \<rparr>"

definition static_example :: "(unit, unit) TensorImpl" where
  "static_example = spec_example\<lparr>shape_dynamism_' := STATIC\<rparr>"

definition bad_dim_order_example :: "(unit, unit) TensorImpl" where
  "bad_dim_order_example = spec_example\<lparr>dim_order_' := Some [1, 1]\<rparr>"

definition scalar_example :: "(unit, unit) TensorImpl" where
  "scalar_example =
     \<lparr> sizes_' = [], dim_order_' = None, strides_' = None,
       data_' = (), dim_' = 0, numel_' = 1, numel_bound_' = 1,
       type_' = (), shape_dynamism_' = STATIC \<rparr>"

definition unit_capacity_example :: "(unit, unit) TensorImpl" where
  "unit_capacity_example =
     \<lparr> sizes_' = [1, 1, 1, 1], dim_order_' = Some [0, 1, 2, 3],
       strides_' = Some [1, 1, 1, 1], data_' = (), dim_' = 4, numel_' = 1,
       numel_bound_' = 1, type_' = (), shape_dynamism_' = DYNAMIC_BOUND \<rparr>"

section \<open>Properties of \<open>compute_numel\<close> and of the resize\<close>

subsection \<open>Signed and unsigned readings of 64 bits\<close>







subsection \<open>The loop of \<open>compute_numel\<close>\<close>

lemma compute_numel_loop_prod:
  "0 \<le> i \<Longrightarrow> nat dim \<le> length sizes \<Longrightarrow>
   compute_numel_loop sizes dim i numel
     = numel * word_of_int (prod_list (map sint (drop (nat i) (take (nat dim) sizes))))"
proof (induction sizes dim i numel rule: compute_numel_loop.induct)
  case (1 sizes dim i numel)
  show ?case
  proof (cases "i < dim")
    case True
    then have lt: "nat i < length (take (nat dim) sizes)" using 1 by simp
    have s: "nat (i + 1) = Suc (nat i)" using 1(2) by simp
    have n: "take (nat dim) sizes ! nat i = sizes ! nat i" using 1(2) True by simp
    have d: "drop (nat i) (take (nat dim) sizes)
               = sizes ! nat i # drop (nat (i + 1)) (take (nat dim) sizes)"
      using Cons_nth_drop_Suc [OF lt] by (simp only: s n)
    have "compute_numel_loop sizes dim i numel
            = compute_numel_loop sizes dim (i + 1) (numel * scast (sizes ! nat i))"
      using True by (simp add: compute_numel_loop.simps [of sizes dim i])
    also have "\<dots> = numel * scast (sizes ! nat i)
        * word_of_int (prod_list (map sint (drop (nat (i + 1)) (take (nat dim) sizes))))"
    proof -
      have "0 \<le> i + 1" using 1(2) by simp
      then show ?thesis by (rule 1(1) [OF True _ 1(3)])
    qed
    also have "\<dots> = numel * word_of_int (sint (sizes ! nat i)
        * prod_list (map sint (drop (nat (i + 1)) (take (nat dim) sizes))))"
      by (simp only: scast_eq of_int_mult mult.assoc)
    finally show ?thesis by (simp add: d)
  next
    case False
    then show ?thesis using 1 by (simp add: compute_numel_loop.simps [of sizes dim i])
  qed
qed

lemma compute_numel_prod:
  "nat dim \<le> length sizes \<Longrightarrow>
   compute_numel sizes dim = word_of_int (prod_list (map sint (take (nat dim) sizes)))"
  by (simp add: compute_numel_def compute_numel_loop_prod)

lemma compute_numel_whole:
  "int (length new_sizes) = dim \<Longrightarrow>
   compute_numel new_sizes dim = word_of_int (prod_list (map sint new_sizes))"
  using compute_numel_prod [of dim new_sizes] by auto

lemma length_layout_strides [simp]: "length (layout_strides sizes dim_order dims) = dims"
  by (simp add: layout_strides_def)

subsection \<open>What a resize returns, branch by branch\<close>

lemma resize_dynamic_cases:
  "resize_dynamic u t new_sizes = (e, t') \<Longrightarrow>
     (e \<noteq> Ok \<and> t' = t) \<or>
     (e = Ok \<and> as_bound_type u (compute_numel new_sizes (dim_' t))
                 \<le> as_bound_type u (numel_bound_' t) \<and>
        (\<exists>strides dim_order. strides_' t = Some strides \<and> dim_order_' t = Some dim_order \<and>
           dim_order_is_permutation dim_order (nat (dim_' t)) \<and>
           t' = t\<lparr>strides_' := Some (layout_strides (map sint new_sizes) dim_order
                                       (nat (dim_' t)) @ drop (nat (dim_' t)) strides),
                  numel_' := compute_numel new_sizes (dim_' t),
                  sizes_' := std_copy new_sizes (sizes_' t)\<rparr>))"
  by (auto simp: resize_dynamic_def Let_def dim_order_to_stride_def
           split: if_splits option.splits)

lemma resize_cases:
  "internal_resize_contiguous u t new_sizes = (e, t') \<Longrightarrow>
     (e \<noteq> Ok \<and> t' = t) \<or> (e = Ok \<and> t' = t \<and> int (length new_sizes) = dim_' t
         \<and> (dim_' t = 0 \<or> shape_dynamism_' t = STATIC)) \<or>
     (e = Ok \<and> int (length new_sizes) = dim_' t \<and> 0 < dim_' t \<and> shape_dynamism_' t \<noteq> STATIC \<and>
        as_bound_type u (word_of_int (prod_list (map sint new_sizes)))
          \<le> as_bound_type u (numel_bound_' t) \<and>
        (\<exists>strides dim_order. strides_' t = Some strides \<and> dim_order_' t = Some dim_order \<and>
           dim_order_is_permutation dim_order (nat (dim_' t)) \<and>
           t' = t\<lparr>strides_' := Some (layout_strides (map sint new_sizes) dim_order
                                       (nat (dim_' t)) @ drop (nat (dim_' t)) strides),
                  numel_' := word_of_int (prod_list (map sint new_sizes)),
                  sizes_' := std_copy new_sizes (sizes_' t)\<rparr>))"
proof -
  assume a: "internal_resize_contiguous u t new_sizes = (e, t')"
  show ?thesis
  proof (cases "int (length new_sizes) = dim_' t \<and> dim_' t \<noteq> 0 \<and> shape_dynamism_' t \<noteq> STATIC")
    case True
    then have d: "resize_dynamic u t new_sizes = (e, t')"
      using a by (cases "shape_dynamism_' t") (simp_all add: internal_resize_contiguous_def)
    have n: "compute_numel new_sizes (dim_' t) = word_of_int (prod_list (map sint new_sizes))"
      using True by (simp add: compute_numel_whole)
    have p: "0 < dim_' t" using True by linarith
    from resize_dynamic_cases [OF d] show ?thesis
      unfolding n using True p by auto
  next
    case False
    then show ?thesis using a
      by (cases "shape_dynamism_' t")
         (auto simp: internal_resize_contiguous_def split: if_splits)
  qed
qed

lemma resize_result:
  "internal_resize_contiguous u t new_sizes =
     (fst (internal_resize_contiguous u t new_sizes),
      snd (internal_resize_contiguous u t new_sizes))"
  by simp

lemma std_equal_iff: "std_equal first1 n first2 \<longleftrightarrow> (\<forall>i<n. first1 ! i = first2 ! i)"
  by (auto simp: std_equal_def list_all_iff)


subsection \<open>Runs on the example descriptors\<close>

lemmas resize_unfold =
  internal_resize_contiguous_def resize_dynamic_def compute_numel_def
  compute_numel_loop.simps as_bound_type_def dim_order_to_stride_def
  dim_order_is_permutation_def layout_strides_def std_copy_def std_equal_def
  spec_example_def static_example_def bad_dim_order_example_def scalar_example_def
  unit_capacity_example_def TensorImpl_ctor_def

lemma resize_spec_example_2_4:
  "internal_resize_contiguous u spec_example [2, 4] =
     (Ok, spec_example\<lparr>strides_' := Some [4, 1], numel_' := 8, sizes_' := [2, 4]\<rparr>)"
  by (cases u) (simp_all add: resize_unfold upt_rec)

lemma resize_spec_example_3_5:
  "internal_resize_contiguous u spec_example [3, 5] = (NotSupported, spec_example)"
  by (cases u) (simp_all add: resize_unfold)

lemma resize_bad_dim_order_example:
  "internal_resize_contiguous u bad_dim_order_example [2, 4]
     = (Internal, bad_dim_order_example)"
  by (cases u) (simp_all add: resize_unfold)



section \<open>Properties of the descriptor and of the hooks\<close>





text \<open>
  Claim C2. A resize that fails, for whatever reason, leaves the descriptor as it was:
  sizes, strides and element count are those before the call.
\<close>

theorem failed_resize_changes_nothing:
  assumes "fst (internal_resize_contiguous u t new_sizes) \<noteq> Ok"
  shows "snd (internal_resize_contiguous u t new_sizes) = t
       \<and> sizes_' (snd (internal_resize_contiguous u t new_sizes)) = sizes_' t
       \<and> strides_' (snd (internal_resize_contiguous u t new_sizes)) = strides_' t
       \<and> numel_' (snd (internal_resize_contiguous u t new_sizes)) = numel_' t"
proof -
  have "snd (internal_resize_contiguous u t new_sizes) = t"
    using assms resize_cases [OF resize_result [of u t new_sizes]] by auto
  then show ?thesis by simp
qed

theorem failed_resize_changes_nothing_witness:
  "fst (internal_resize_contiguous True spec_example [3, 5]) = NotSupported
     \<and> snd (internal_resize_contiguous True spec_example [3, 5]) = spec_example
     \<and> fst (internal_resize_contiguous False bad_dim_order_example [2, 4]) = Internal
     \<and> snd (internal_resize_contiguous False bad_dim_order_example [2, 4])
         = bad_dim_order_example"
proof -
  have a: "fst (internal_resize_contiguous True spec_example [3, 5]) = NotSupported"
    by (simp add: resize_spec_example_3_5)
  have b: "fst (internal_resize_contiguous False bad_dim_order_example [2, 4]) = Internal"
    by (simp add: resize_bad_dim_order_example)
  show ?thesis
    using a b failed_resize_changes_nothing [of True spec_example "[3, 5]"]
      failed_resize_changes_nothing [of False bad_dim_order_example "[2, 4]"]
    by simp
qed

text \<open>
  Claim C3 says that a resize to another rank fails with an error distinct from the one
  returned for policy violations. On the example descriptor a resize to rank 1 and a
  resize beyond the capacity return the same error code, \<open>NotSupported\<close>.
\<close>

theorem rank_mismatch_same_error_counterexample:
  "int (length [1 :: 32 word]) \<noteq> dim_' spec_example
     \<and> fst (internal_resize_contiguous True spec_example [1]) = NotSupported
     \<and> fst (internal_resize_contiguous False spec_example [1]) = NotSupported
     \<and> int (length [3, 5 :: 32 word]) = dim_' spec_example
     \<and> as_bound_type True (numel_bound_' spec_example) < prod_list (map sint [3, 5 :: 32 word])
     \<and> as_bound_type False (numel_bound_' spec_example) < prod_list (map sint [3, 5 :: 32 word])
     \<and> fst (internal_resize_contiguous True spec_example [3, 5]) = NotSupported
     \<and> fst (internal_resize_contiguous False spec_example [3, 5]) = NotSupported
     \<and> fst (internal_resize_contiguous True spec_example [1])
         = fst (internal_resize_contiguous True spec_example [3, 5])
     \<and> fst (internal_resize_contiguous False spec_example [1])
         = fst (internal_resize_contiguous False spec_example [3, 5])"
  by (simp add: resize_spec_example_3_5)
     (simp add: internal_resize_contiguous_def spec_example_def as_bound_type_def)

text \<open>
  Claim C3, amended. A resize whose \<open>new_sizes\<close> has a length other than the rank
  fails with \<open>NotSupported\<close> and leaves the descriptor unchanged; \<open>NotSupported\<close>
  is also the error of both policy violations, a changed shape under the static policy
  and an exceeded capacity under a dynamic one (the product being the one the code
  compares, reduced to 64 bits and read in the type of the capacity).
\<close>

theorem rank_mismatch_not_supported:
  "(int (length new_sizes) \<noteq> dim_' t
      \<longrightarrow> internal_resize_contiguous u t new_sizes = (NotSupported, t))
   \<and> (int (length new_sizes) = dim_' t \<and> 0 < dim_' t \<and> shape_dynamism_' t = STATIC
        \<and> (\<exists>i<nat (dim_' t). new_sizes ! i \<noteq> sizes_' t ! i)
      \<longrightarrow> internal_resize_contiguous u t new_sizes = (NotSupported, t))
   \<and> (int (length new_sizes) = dim_' t \<and> 0 < dim_' t \<and> shape_dynamism_' t \<noteq> STATIC
        \<and> as_bound_type u (numel_bound_' t)
            < as_bound_type u (word_of_int (prod_list (map sint new_sizes)))
      \<longrightarrow> internal_resize_contiguous u t new_sizes = (NotSupported, t))"
proof (intro conjI impI)
  assume "int (length new_sizes) \<noteq> dim_' t"
  then show "internal_resize_contiguous u t new_sizes = (NotSupported, t)"
    by (simp add: internal_resize_contiguous_def)
next
  assume a: "int (length new_sizes) = dim_' t \<and> 0 < dim_' t \<and> shape_dynamism_' t = STATIC
        \<and> (\<exists>i<nat (dim_' t). new_sizes ! i \<noteq> sizes_' t ! i)"
  then have "\<not> std_equal (sizes_' t) (nat (dim_' t)) new_sizes"
    by (auto simp: std_equal_iff)
  then show "internal_resize_contiguous u t new_sizes = (NotSupported, t)"
    using a by (simp add: internal_resize_contiguous_def)
next
  assume a: "int (length new_sizes) = dim_' t \<and> 0 < dim_' t \<and> shape_dynamism_' t \<noteq> STATIC
        \<and> as_bound_type u (numel_bound_' t)
            < as_bound_type u (word_of_int (prod_list (map sint new_sizes)))"
  then have n: "compute_numel new_sizes (dim_' t) = word_of_int (prod_list (map sint new_sizes))"
    by (simp add: compute_numel_whole)
  have "resize_dynamic u t new_sizes = (NotSupported, t)"
    using a by (simp add: resize_dynamic_def n)
  then show "internal_resize_contiguous u t new_sizes = (NotSupported, t)"
    using a by (cases "shape_dynamism_' t") (simp_all add: internal_resize_contiguous_def)
qed

theorem rank_mismatch_not_supported_witness:
  "int (length [1 :: 32 word]) \<noteq> dim_' spec_example
     \<and> internal_resize_contiguous True spec_example [1] = (NotSupported, spec_example)
     \<and> internal_resize_contiguous True static_example [2, 4] = (NotSupported, static_example)
     \<and> internal_resize_contiguous True spec_example [3, 5] = (NotSupported, spec_example)
     \<and> internal_resize_contiguous False spec_example [3, 5] = (NotSupported, spec_example)"
proof -
  have s: "\<exists>i<nat (dim_' static_example). [2, 4] ! i \<noteq> sizes_' static_example ! i"
    by (rule exI [of _ 0]) (simp add: static_example_def spec_example_def)
  show ?thesis
    using s rank_mismatch_not_supported [of "[1]" spec_example True]
      rank_mismatch_not_supported [of "[2, 4]" static_example True]
      rank_mismatch_not_supported [of "[3, 5]" spec_example True]
      rank_mismatch_not_supported [of "[3, 5]" spec_example False]
    by (simp add: static_example_def spec_example_def as_bound_type_def)
qed





text \<open>
  Claim C5. Under the static policy and with positive rank, a resize to sizes that equal
  the current ones at every index succeeds and changes nothing, and a resize to sizes of
  the same length that differ at some index fails with \<open>NotSupported\<close>.
\<close>

theorem static_resize:
  assumes "shape_dynamism_' t = STATIC"
    and "0 < dim_' t"
    and "int (length new_sizes) = dim_' t"
  shows "((\<forall>i<nat (dim_' t). new_sizes ! i = sizes_' t ! i)
            \<longrightarrow> internal_resize_contiguous u t new_sizes = (Ok, t))
       \<and> ((\<exists>i<nat (dim_' t). new_sizes ! i \<noteq> sizes_' t ! i)
            \<longrightarrow> internal_resize_contiguous u t new_sizes = (NotSupported, t))"
  using assms by (auto simp: internal_resize_contiguous_def std_equal_iff)

theorem static_resize_witness:
  "shape_dynamism_' static_example = STATIC \<and> 0 < dim_' static_example
     \<and> int (length [3, 4 :: 32 word]) = dim_' static_example
     \<and> internal_resize_contiguous True static_example [3, 4] = (Ok, static_example)
     \<and> internal_resize_contiguous True static_example [2, 4] = (NotSupported, static_example)"
proof -
  have e: "\<forall>i<nat (dim_' static_example). [3, 4] ! i = sizes_' static_example ! i"
    by (simp add: static_example_def spec_example_def less_Suc_eq numeral_2_eq_2)
  have d: "\<exists>i<nat (dim_' static_example). [2, 4] ! i \<noteq> sizes_' static_example ! i"
    by (rule exI [of _ 0]) (simp add: static_example_def spec_example_def)
  show ?thesis
    using e d static_resize [of static_example "[3, 4]" True]
      static_resize [of static_example "[2, 4]" True]
    by (simp add: static_example_def spec_example_def)
qed




text \<open>
  Claim C7. On a descriptor of rank 0 a resize with no sizes succeeds under every
  policy and leaves the descriptor, hence sizes, strides and element count, untouched.
\<close>

theorem scalar_resize:
  assumes "dim_' t = 0" and "length new_sizes = 0"
  shows "internal_resize_contiguous u t new_sizes = (Ok, t)"
  using assms by (simp add: internal_resize_contiguous_def)

theorem scalar_resize_witness:
  "dim_' scalar_example = 0 \<and> shape_dynamism_' scalar_example = STATIC
     \<and> internal_resize_contiguous True scalar_example [] = (Ok, scalar_example)
     \<and> dim_' (scalar_example\<lparr>shape_dynamism_' := DYNAMIC_BOUND\<rparr>) = 0
     \<and> internal_resize_contiguous True (scalar_example\<lparr>shape_dynamism_' := DYNAMIC_BOUND\<rparr>) []
         = (Ok, scalar_example\<lparr>shape_dynamism_' := DYNAMIC_BOUND\<rparr>)"
  using scalar_resize [of scalar_example "[]" True]
    scalar_resize [of "scalar_example\<lparr>shape_dynamism_' := DYNAMIC_BOUND\<rparr>" "[]" True]
  by (simp add: scalar_example_def)

text \<open>
  Claim C10. Whatever the policy, the input and the outcome, a resize leaves the rank,
  the capacity, the element type, the data pointer, the dim-order buffer and the policy
  as they were: the descriptor after the call differs from the one before at most in
  the element count, the sizes buffer and the strides buffer.
\<close>

theorem resize_frame:
  "dim_' (snd (internal_resize_contiguous u t new_sizes)) = dim_' t
   \<and> numel_bound_' (snd (internal_resize_contiguous u t new_sizes)) = numel_bound_' t
   \<and> type_' (snd (internal_resize_contiguous u t new_sizes)) = type_' t
   \<and> data_' (snd (internal_resize_contiguous u t new_sizes)) = data_' t
   \<and> dim_order_' (snd (internal_resize_contiguous u t new_sizes)) = dim_order_' t
   \<and> shape_dynamism_' (snd (internal_resize_contiguous u t new_sizes)) = shape_dynamism_' t
   \<and> snd (internal_resize_contiguous u t new_sizes)
       = t\<lparr>numel_' := numel_' (snd (internal_resize_contiguous u t new_sizes)),
            sizes_' := sizes_' (snd (internal_resize_contiguous u t new_sizes)),
            strides_' := strides_' (snd (internal_resize_contiguous u t new_sizes))\<rparr>"
  using resize_cases [OF resize_result [of u t new_sizes]] by auto

text \<open>
  Claim C9. Called with a null tracer, every delegate hook leaves the program state as
  it is, for all arguments and whether or not the tracer is compiled in, and the start
  hook returns the default-constructed entry.
\<close>

theorem null_tracer_hooks_do_nothing:
  "event_tracer_start_profiling_delegate enabled methods EventTracerEntry None
       name delegate_debug_id w = (EventTracerEntry, w)
   \<and> event_tracer_end_profiling_delegate enabled methods None
       event_tracer_entry metadata metadata_len w = w
   \<and> event_tracer_log_profiling_delegate enabled methods None
       name delegate_debug_id start_time end_time metadata metadata_len w = w
   \<and> event_tracer_log_output_delegate enabled methods None
       name delegate_debug_id output w = w"
  by (simp add: event_tracer_start_profiling_delegate_def
      event_tracer_end_profiling_delegate_def event_tracer_log_profiling_delegate_def
      event_tracer_log_output_delegate_def)


text \<open>A successful resize either leaves the descriptor as it is or rewrites the front of
  the strides buffer with the layout of the new sizes.\<close>

lemma successful_resize_frame:
  assumes "internal_resize_contiguous u t new_sizes = (Ok, t')"
  shows "dim_' t' = dim_' t" and "dim_order_' t' = dim_order_' t"
    and "shape_dynamism_' t' = shape_dynamism_' t"
  using resize_cases [OF assms] by auto

lemma successful_resize_keeps_strides:
  assumes "internal_resize_contiguous u t new_sizes = (Ok, t')"
    and "\<not> (0 < dim_' t \<and> shape_dynamism_' t \<noteq> STATIC)"
  shows "strides_' t' = strides_' t"
  using resize_cases [OF assms(1)] assms(2) by auto

lemma successful_resize_strides:
  assumes "internal_resize_contiguous u t new_sizes = (Ok, t')"
    and "0 < dim_' t \<and> shape_dynamism_' t \<noteq> STATIC"
    and "dim_order_' t = Some dim_order"
  shows "\<exists>strides. strides_' t' = Some (layout_strides (map sint new_sizes) dim_order (nat (dim_' t))
                                          @ drop (nat (dim_' t)) strides)"
  using resize_cases [OF assms(1)] assms(2,3) by auto

lemma successful_resize_dim_order:
  assumes "internal_resize_contiguous u t new_sizes = (Ok, t')"
    and "0 < dim_' t \<and> shape_dynamism_' t \<noteq> STATIC"
  shows "\<exists>dim_order. dim_order_' t = Some dim_order"
  using resize_cases [OF assms(1)] assms(2) by auto

lemma successful_resize_strides_tail:
  assumes "internal_resize_contiguous u t new_sizes = (Ok, t')"
    and "strides_' t = Some strides" and "strides_' t' = Some strides'"
  shows "drop (nat (dim_' t)) strides' = drop (nat (dim_' t)) strides"
  using resize_cases [OF assms(1)] assms(2,3) by auto

text \<open>
  Claim C8. If resizes to \<open>A\<close>, then to \<open>B\<close>, then to \<open>A\<close> again all succeed,
  the strides after the last one are those after the first one. Under a dynamic policy
  and positive rank the first \<open>dim_\<close> strides are the layout of \<open>A\<close> under the dim
  order, a function of the sizes and the dim order alone.
\<close>

theorem resize_round_trip_strides:
  assumes "internal_resize_contiguous u t A = (Ok, t1)"
    and "internal_resize_contiguous u t1 B = (Ok, t2)"
    and "internal_resize_contiguous u t2 A = (Ok, t3)"
  shows "strides_' t3 = strides_' t1
       \<and> (0 < dim_' t \<and> shape_dynamism_' t \<noteq> STATIC \<longrightarrow>
            (\<exists>dim_order. dim_order_' t = Some dim_order
               \<and> map_option (take (nat (dim_' t))) (strides_' t1)
                   = Some (layout_strides (map sint A) dim_order (nat (dim_' t)))))"
proof (cases "0 < dim_' t \<and> shape_dynamism_' t \<noteq> STATIC")
  case False
  then have "\<not> (0 < dim_' t1 \<and> shape_dynamism_' t1 \<noteq> STATIC)"
    by (simp add: successful_resize_frame [OF assms(1)])
  then have "\<not> (0 < dim_' t2 \<and> shape_dynamism_' t2 \<noteq> STATIC)"
    and "strides_' t2 = strides_' t1"
    by (simp_all add: successful_resize_frame [OF assms(2)]
        successful_resize_keeps_strides [OF assms(2)])
  then have "strides_' t3 = strides_' t1"
    by (simp add: successful_resize_keeps_strides [OF assms(3)])
  then show ?thesis using False by blast
next
  case True
  let ?n = "nat (dim_' t)"
  from successful_resize_dim_order [OF assms(1) True]
  obtain d where d: "dim_order_' t = Some d" by blast
  from successful_resize_strides [OF assms(1) True d]
  obtain st where st1: "strides_' t1 = Some (layout_strides (map sint A) d ?n @ drop ?n st)" by blast
  have c1: "0 < dim_' t1 \<and> shape_dynamism_' t1 \<noteq> STATIC" and n1: "dim_' t1 = dim_' t"
    and d1: "dim_order_' t1 = Some d"
    using True d by (simp_all add: successful_resize_frame [OF assms(1)])
  from successful_resize_strides [OF assms(2) c1 d1]
  obtain st' where st2: "strides_' t2 = Some (layout_strides (map sint B) d ?n @ drop ?n st')"
    unfolding n1 by blast
  have tail2: "drop ?n st' = drop ?n st"
    using successful_resize_strides_tail [OF assms(2) st1 st2] by (simp add: n1)
  have c2: "0 < dim_' t2 \<and> shape_dynamism_' t2 \<noteq> STATIC" and n2: "dim_' t2 = dim_' t"
    and d2: "dim_order_' t2 = Some d"
    using c1 n1 d1 by (simp_all add: successful_resize_frame [OF assms(2)])
  from successful_resize_strides [OF assms(3) c2 d2]
  obtain st'' where st3: "strides_' t3 = Some (layout_strides (map sint A) d ?n @ drop ?n st'')"
    unfolding n2 by blast
  have tail3: "drop ?n st'' = drop ?n st"
    using successful_resize_strides_tail [OF assms(3) st2 st3] tail2 by (simp add: n2)
  have "strides_' t3 = strides_' t1"
    using st1 st3 tail3 by simp
  moreover have "map_option (take ?n) (strides_' t1) = Some (layout_strides (map sint A) d ?n)"
    using st1 by simp
  ultimately show ?thesis using d by simp
qed

theorem resize_round_trip_strides_witness:
  "internal_resize_contiguous True spec_example [2, 4]
      = (Ok, spec_example\<lparr>strides_' := Some [4, 1], numel_' := 8, sizes_' := [2, 4]\<rparr>)
   \<and> internal_resize_contiguous True
        (spec_example\<lparr>strides_' := Some [4, 1], numel_' := 8, sizes_' := [2, 4]\<rparr>) [3, 2]
      = (Ok, spec_example\<lparr>strides_' := Some [2, 1], numel_' := 6, sizes_' := [3, 2]\<rparr>)
   \<and> internal_resize_contiguous True
        (spec_example\<lparr>strides_' := Some [2, 1], numel_' := 6, sizes_' := [3, 2]\<rparr>) [2, 4]
      = (Ok, spec_example\<lparr>strides_' := Some [4, 1], numel_' := 8, sizes_' := [2, 4]\<rparr>)
   \<and> layout_strides (map sint [2, 4 :: 32 word]) [0, 1] 2 = [4, 1]"
proof -
  have b: "internal_resize_contiguous True
        (spec_example\<lparr>strides_' := Some [4, 1], numel_' := 8, sizes_' := [2, 4]\<rparr>) [3, 2]
      = (Ok, spec_example\<lparr>strides_' := Some [2, 1], numel_' := 6, sizes_' := [3, 2]\<rparr>)"
    by (simp add: resize_unfold upt_rec)
  have c: "internal_resize_contiguous True
        (spec_example\<lparr>strides_' := Some [2, 1], numel_' := 6, sizes_' := [3, 2]\<rparr>) [2, 4]
      = (Ok, spec_example\<lparr>strides_' := Some [4, 1], numel_' := 8, sizes_' := [2, 4]\<rparr>)"
    by (simp add: resize_unfold upt_rec)
  show ?thesis
    using resize_round_trip_strides [OF resize_spec_example_2_4 [of True] b c]
      resize_spec_example_2_4 [of True] b c
    by (simp add: spec_example_def)
qed

end
